theory Spec2Isabelle
  imports Main "HOL-Library.Word"
begin

unbundle bit_operations_syntax

section \<open>The kqueue emitter of watchdog (watchdog/observers/kqueue.py)\<close>

text \<open>
  A shallow embedding of \<^verbatim>\<open>KeventDescriptorSet\<close>, \<^verbatim>\<open>KeventDescriptor\<close> and
  \<^verbatim>\<open>KqueueEmitter\<close>. Mutation is explicit state passing; a Python exception is the
  outcome \<open>Raises\<close>, which keeps the state reached when it was raised; a thread that
  waits for ever on a lock it holds itself is the outcome \<open>Blocks\<close>.
\<close>

subsection \<open>Values\<close>

type_synonym path = string
type_synonym fd = int
type_synonym errno = int
type_synonym inode = nat

definition ENOENT :: errno where "ENOENT = 2"
definition EBADF :: errno where "EBADF = 9"
definition EMFILE :: errno where "EMFILE = 24"

datatype exn =
  OSError errno | KeyError | NameError | AttributeError | TypeError | ValueError | SyntaxError

datatype ('a, 's) res = Returns 'a 's | Raises exn 's | Blocks

definition and_then :: "('a, 's) res \<Rightarrow> ('a \<Rightarrow> 's \<Rightarrow> ('b, 's) res) \<Rightarrow> ('b, 's) res" where
  "and_then r f = (case r of Returns a s \<Rightarrow> f a s | Raises e s \<Rightarrow> Raises e s | Blocks \<Rightarrow> Blocks)"

text \<open>
  The flag constants come from Python's \<^verbatim>\<open>select\<close> module, which takes them from
  \<^verbatim>\<open>sys/event.h\<close>; \<^verbatim>\<open>fflags\<close> is an unsigned 32-bit field of \<^verbatim>\<open>struct kevent\<close>.
\<close>

definition KQ_NOTE_DELETE :: "32 word" where "KQ_NOTE_DELETE = 0x1"
definition KQ_NOTE_WRITE :: "32 word" where "KQ_NOTE_WRITE = 0x2"
definition KQ_NOTE_EXTEND :: "32 word" where "KQ_NOTE_EXTEND = 0x4"
definition KQ_NOTE_ATTRIB :: "32 word" where "KQ_NOTE_ATTRIB = 0x8"
definition KQ_NOTE_LINK :: "32 word" where "KQ_NOTE_LINK = 0x10"
definition KQ_NOTE_RENAME :: "32 word" where "KQ_NOTE_RENAME = 0x20"
definition KQ_NOTE_REVOKE :: "32 word" where "KQ_NOTE_REVOKE = 0x40"

definition KQ_FILTER_VNODE :: int where "KQ_FILTER_VNODE = - 4"
definition KQ_EV_ADD :: "16 word" where "KQ_EV_ADD = 0x1"
definition KQ_EV_ENABLE :: "16 word" where "KQ_EV_ENABLE = 0x4"
definition KQ_EV_CLEAR :: "16 word" where "KQ_EV_CLEAR = 0x20"

definition WATCHDOG_KQ_FILTER :: int where
  "WATCHDOG_KQ_FILTER = KQ_FILTER_VNODE"

definition WATCHDOG_KQ_EV_FLAGS :: "16 word" where
  "WATCHDOG_KQ_EV_FLAGS = KQ_EV_ADD OR KQ_EV_ENABLE OR KQ_EV_CLEAR"

definition WATCHDOG_KQ_FFLAGS :: "32 word" where
  "WATCHDOG_KQ_FFLAGS =
     KQ_NOTE_DELETE OR KQ_NOTE_WRITE OR KQ_NOTE_EXTEND OR KQ_NOTE_ATTRIB OR
     KQ_NOTE_LINK OR KQ_NOTE_RENAME OR KQ_NOTE_REVOKE"

record kevent =
  ident :: fd
  kq_filter :: int
  flags :: "16 word"
  fflags :: "32 word"

subsection \<open>Flag tests\<close>

definition is_deleted :: "kevent \<Rightarrow> 32 word" where
  "is_deleted kev = fflags kev AND KQ_NOTE_DELETE"

text \<open>Python's \<^verbatim>\<open>a or b\<close> is \<^verbatim>\<open>a\<close> when \<^verbatim>\<open>a\<close> is non-zero and \<^verbatim>\<open>b\<close> otherwise.\<close>

definition is_modified :: "kevent \<Rightarrow> 32 word" where
  "is_modified kev =
     (let fflags = fflags kev in
      if fflags AND KQ_NOTE_EXTEND \<noteq> 0 then fflags AND KQ_NOTE_EXTEND
      else fflags AND KQ_NOTE_WRITE)"

definition is_attrib_modified :: "kevent \<Rightarrow> 32 word" where
  "is_attrib_modified kev = fflags kev AND KQ_NOTE_ATTRIB"

definition is_renamed :: "kevent \<Rightarrow> 32 word" where
  "is_renamed kev = fflags kev AND KQ_NOTE_RENAME"

text \<open>The truth value of a Python integer in a condition.\<close>

definition truthy :: "32 word \<Rightarrow> bool" where
  "truthy w = (w \<noteq> 0)"

subsection \<open>Paths and snapshots\<close>

text \<open>
  \<^verbatim>\<open>watchdog.utils.absolute_path\<close> is not among the sources.
\<close>

text \<open>
  Modelled from the spec: the path canonicalization utility, "treated as a pure function
  path -> canonical absolute path, applied consistently before every map lookup/insert".
  The paths of this model are canonical absolute paths, which canonicalization leaves as
  they are.
\<close>

definition absolute_path :: "path \<Rightarrow> path" where
  "absolute_path p = p"

text \<open>
  Modelled from the spec: the stat record of a DirectoryEntry, "absolute path,
  is_directory, inode id, modification time, size"; the path is the key of the snapshot.
  \<^verbatim>\<open>watchdog/utils/dirsnapshot.py\<close> is not among the sources.
\<close>

record stat_result =
  st_ino :: inode
  st_isdir :: bool
  st_mtime :: int
  st_size :: nat

text \<open>
  Modelled from the spec: a Snapshot, "mapping path->DirectoryEntry plus reverse mapping
  inode->path". \<^verbatim>\<open>stat_info\<close> and \<^verbatim>\<open>path_for_inode\<close> fail with
  \<^verbatim>\<open>KeyError\<close> on an absent key, which is what \<^verbatim>\<open>_queue_file_renamed\<close> catches.
\<close>

record snapshot =
  stat_snapshot :: "path \<rightharpoonup> stat_result"
  inode_to_path :: "inode \<rightharpoonup> path"

definition stat_info :: "snapshot \<Rightarrow> path \<Rightarrow> exn + stat_result" where
  "stat_info snap p = (case stat_snapshot snap p of None \<Rightarrow> Inl KeyError | Some st \<Rightarrow> Inr st)"

definition path_for_inode :: "snapshot \<Rightarrow> inode \<Rightarrow> exn + path" where
  "path_for_inode snap i = (case inode_to_path snap i of None \<Rightarrow> Inl KeyError | Some p \<Rightarrow> Inr p)"

subsection \<open>The state\<close>

record descriptor =
  d_path :: path
  d_is_directory :: bool
  d_fd :: fd
  d_kev :: kevent

text \<open>
  \<open>lock\<close> is whether \<^verbatim>\<open>self._lock\<close>, a non-reentrant \<^verbatim>\<open>threading.Lock\<close>, is held.
  \<open>closed\<close> is not a field of the class: it records the handles passed to
  \<^verbatim>\<open>os.close\<close>, in call order.
\<close>

record descriptor_set =
  descriptors :: "descriptor set"
  descriptor_for_path :: "path \<rightharpoonup> descriptor"
  descriptor_for_fd :: "fd \<rightharpoonup> descriptor"
  kevents :: "kevent set"
  lock :: bool
  closed :: "fd list"

text \<open>
  Modelled from the spec: a CanonicalEvent, "tagged variant over {Created, Deleted,
  Modified, AttributeModified, Moved(src,dest)} x {File, Directory}", of the shape
  "{type, isDirectory, srcPath, destPath: string|absent}". \<^verbatim>\<open>watchdog/events.py\<close> is
  not among the sources; the emitter imports the eight classes below and the two type
  tags it compares with.
\<close>

datatype event_type =
  EVENT_TYPE_MOVED | EVENT_TYPE_DELETED | EVENT_TYPE_CREATED | EVENT_TYPE_MODIFIED
| EVENT_TYPE_ATTRIB_MODIFIED

record event =
  event_type :: event_type
  is_directory :: bool
  src_path :: path
  dest_path :: "path option"

text \<open>
  The emitter's own \<^verbatim>\<open>self._lock\<close> is a reentrant \<^verbatim>\<open>threading.RLock\<close>: the thread
  that holds it acquires it again without waiting, so it is not part of the state.
\<close>

record emitter =
  em_descriptors :: descriptor_set
  em_snapshot :: snapshot
  event_queue :: "event list"

subsection \<open>The environment\<close>

text \<open>
  What the code reads from outside itself: the outcome of \<^verbatim>\<open>os.open\<close>, of
  \<^verbatim>\<open>os.close\<close>, of the walk \<^verbatim>\<open>DirectorySnapshot(path, recursive)\<close> and of
  \<^verbatim>\<open>kqueue.control\<close>, and the bindings of the names that a function body reads
  without binding them: \<^verbatim>\<open>kev\<close> in \<^verbatim>\<open>KeventDescriptor.__init__\<close>;
  \<^verbatim>\<open>ref_snapshot\<close> and \<^verbatim>\<open>new_snapshot\<close> in
  \<^verbatim>\<open>_queue_events_except_renames_and_dir_modifications\<close>; \<^verbatim>\<open>watch\<close> (its path and
  its recursive flag), \<^verbatim>\<open>dirs_modified\<close> (the assignment of \<^verbatim>\<open>queue_events\<close> binds
  \<^verbatim>\<open>dir_modified\<close>) and \<^verbatim>\<open>OSerror\<close> (the class named by its \<^verbatim>\<open>except\<close>
  clause, given by the test of which exceptions are its instances) in
  \<^verbatim>\<open>queue_events\<close>. Python looks such a name up in the enclosing scopes when the
  statement runs and raises \<^verbatim>\<open>NameError\<close> when it finds no binding: \<open>None\<close> is the
  unbound name. The module binds none of these names.

  The statement \<^verbatim>\<open>continue\<close> stands twice where no loop encloses it, in
  \<^verbatim>\<open>_queue_file_renamed\<close> and in the handler of \<^verbatim>\<open>queue_events\<close>; Python refuses
  such a statement when it compiles the module. The source does not say how a call goes
  on from there, and the model does not choose: \<open>continue_outside_loop\<close> is how it does.
\<close>

record env =
  os_open :: "path \<Rightarrow> errno + fd"
  os_close :: "fd \<Rightarrow> errno option"
  DirectorySnapshot :: "path \<Rightarrow> bool \<Rightarrow> exn + snapshot"
  kq_control :: "kevent set \<Rightarrow> int \<Rightarrow> errno + kevent list"
  name_kev :: "kevent option"
  name_ref_snapshot :: "snapshot option"
  name_new_snapshot :: "snapshot option"
  name_watch :: "(path \<times> bool) option"
  name_dirs_modified :: "path set option"
  name_OSerror :: "(exn \<Rightarrow> bool) option"
  continue_outside_loop :: "emitter \<Rightarrow> (unit, emitter) res"

subsection \<open>KeventDescriptor\<close>

text \<open>
  \<^verbatim>\<open>__init__\<close>: the path is stored, the name \<^verbatim>\<open>kev\<close> is read, the file is opened
  (\<^verbatim>\<open>OSError\<close> with the errno of \<^verbatim>\<open>os.open\<close> when that fails), and the kevent is
  built on the new handle.
\<close>

definition KeventDescriptor :: "env \<Rightarrow> path \<Rightarrow> bool \<Rightarrow> exn + descriptor" where
  "KeventDescriptor E p is_dir =
     (case name_kev E of
        None \<Rightarrow> Inl NameError
      | Some kev \<Rightarrow>
          (case os_open E p of
             Inl e \<Rightarrow> Inl (OSError e)
           | Inr h \<Rightarrow>
               Inr \<lparr>d_path = absolute_path p, d_is_directory = is_dir, d_fd = h,
                    d_kev = \<lparr>ident = h, kq_filter = WATCHDOG_KQ_FILTER,
                             flags = WATCHDOG_KQ_EV_FLAGS, fflags = WATCHDOG_KQ_FFLAGS\<rparr>\<rparr>))"

text \<open>\<^verbatim>\<open>_key\<close>, on which \<^verbatim>\<open>__eq__\<close> and \<^verbatim>\<open>__hash__\<close> of a descriptor rest.\<close>

definition key :: "descriptor \<Rightarrow> path \<times> bool" where
  "key d = (d_path d, d_is_directory d)"

subsection \<open>KeventDescriptorSet\<close>

definition KeventDescriptorSet :: descriptor_set where
  "KeventDescriptorSet =
     \<lparr>descriptors = {}, descriptor_for_path = Map.empty, descriptor_for_fd = Map.empty,
      kevents = {}, lock = False, closed = []\<rparr>"

text \<open>
  \<^verbatim>\<open>with self._lock:\<close> acquiring a \<^verbatim>\<open>threading.Lock\<close> that is held blocks until
  another thread releases it; the lock is released when the body returns or raises.
\<close>

definition with_lock ::
  "(descriptor_set \<Rightarrow> ('a, descriptor_set) res) \<Rightarrow> descriptor_set \<Rightarrow> ('a, descriptor_set) res" where
  "with_lock body s =
     (if lock s then Blocks
      else (case body (s\<lparr>lock := True\<rparr>) of
              Returns a s' \<Rightarrow> Returns a (s'\<lparr>lock := False\<rparr>)
            | Raises e s' \<Rightarrow> Raises e (s'\<lparr>lock := False\<rparr>)
            | Blocks \<Rightarrow> Blocks))"

definition get_for_fd :: "fd \<Rightarrow> descriptor_set \<Rightarrow> (descriptor, descriptor_set) res" where
  "get_for_fd h =
     with_lock (\<lambda>s. case descriptor_for_fd s h of
                       None \<Rightarrow> Raises KeyError s
                     | Some d \<Rightarrow> Returns d s)"

definition getitem :: "path \<Rightarrow> descriptor_set \<Rightarrow> (descriptor, descriptor_set) res" where
  "getitem p =
     with_lock (\<lambda>s. let p = absolute_path p in
                     (case descriptor_for_path s p of
                        None \<Rightarrow> Raises KeyError s
                      | Some d \<Rightarrow> Returns d s))"

definition has_path :: "descriptor_set \<Rightarrow> path \<Rightarrow> bool" where
  "has_path s p = (p \<in> dom (descriptor_for_path s))"

definition contains :: "path \<Rightarrow> descriptor_set \<Rightarrow> (bool, descriptor_set) res" where
  "contains p = with_lock (\<lambda>s. let p = absolute_path p in Returns (has_path s p) s)"

text \<open>
  A Python set holds one element per equality class: \<^verbatim>\<open>add\<close> keeps the element that
  is there, \<^verbatim>\<open>remove\<close> takes out the equal element and raises \<^verbatim>\<open>KeyError\<close> when
  there is none. Descriptors are equal when their keys are.
\<close>

definition set_add :: "descriptor \<Rightarrow> descriptor set \<Rightarrow> descriptor set" where
  "set_add d S = (if \<exists>d' \<in> S. key d' = key d then S else insert d S)"

definition set_remove :: "descriptor \<Rightarrow> descriptor set \<Rightarrow> descriptor set option" where
  "set_remove d S =
     (if \<exists>d' \<in> S. key d' = key d then Some {d' \<in> S. key d' \<noteq> key d} else None)"

definition add_descriptor :: "descriptor \<Rightarrow> descriptor_set \<Rightarrow> descriptor_set" where
  "add_descriptor d s =
     (let s1 = s\<lparr>descriptors := set_add d (descriptors s)\<rparr>;
          s2 = s1\<lparr>kevents := insert (d_kev d) (kevents s1)\<rparr>;
          s3 = s2\<lparr>descriptor_for_path := (descriptor_for_path s2)(d_path d \<mapsto> d)\<rparr>
      in s3\<lparr>descriptor_for_fd := (descriptor_for_fd s3)(d_fd d \<mapsto> d)\<rparr>)"

text \<open>\<^verbatim>\<open>KeventDescriptor.close\<close>: an \<^verbatim>\<open>OSError\<close> of \<^verbatim>\<open>os.close\<close> is swallowed.\<close>

definition close :: "env \<Rightarrow> descriptor \<Rightarrow> descriptor_set \<Rightarrow> descriptor_set" where
  "close E d s =
     (case os_close E (d_fd d) of
        None \<Rightarrow> s\<lparr>closed := closed s @ [d_fd d]\<rparr>
      | Some e \<Rightarrow> s\<lparr>closed := closed s @ [d_fd d]\<rparr>)"

text \<open>
  \<^verbatim>\<open>_remove_descriptor\<close>: five statements in a row; each of the first four raises
  \<^verbatim>\<open>KeyError\<close> when its key is absent, leaving the earlier ones done.
\<close>

definition remove_descriptor ::
  "env \<Rightarrow> descriptor \<Rightarrow> descriptor_set \<Rightarrow> (unit, descriptor_set) res" where
  "remove_descriptor E d s =
     (case set_remove d (descriptors s) of
        None \<Rightarrow> Raises KeyError s
      | Some S \<Rightarrow>
          (let s1 = s\<lparr>descriptors := S\<rparr> in
           if d_fd d \<notin> dom (descriptor_for_fd s1) then Raises KeyError s1
           else
             (let s2 = s1\<lparr>descriptor_for_fd := (descriptor_for_fd s1)(d_fd d := None)\<rparr> in
              if d_path d \<notin> dom (descriptor_for_path s2) then Raises KeyError s2
              else
                (let s3 = s2\<lparr>descriptor_for_path := (descriptor_for_path s2)(d_path d := None)\<rparr> in
                 if d_kev d \<notin> kevents s3 then Raises KeyError s3
                 else Returns () (close E d (s3\<lparr>kevents := kevents s3 - {d_kev d}\<rparr>))))))"

definition add :: "env \<Rightarrow> path \<Rightarrow> bool \<Rightarrow> descriptor_set \<Rightarrow> (unit, descriptor_set) res" where
  "add E p is_dir =
     with_lock (\<lambda>s. let p = absolute_path p in
                     if \<not> has_path s p then
                       (case KeventDescriptor E p is_dir of
                          Inl e \<Rightarrow> Raises e s
                        | Inr d \<Rightarrow> Returns () (add_descriptor d s))
                     else Returns () s)"

text \<open>
  \<^verbatim>\<open>remove\<close> holds the lock while it evaluates \<^verbatim>\<open>self[path]\<close>, and
  \<^verbatim>\<open>__getitem__\<close> acquires the same lock.
\<close>

definition remove :: "env \<Rightarrow> path \<Rightarrow> descriptor_set \<Rightarrow> (unit, descriptor_set) res" where
  "remove E p =
     with_lock (\<lambda>s. let p = absolute_path p in
                     if has_path s p then and_then (getitem p s) (remove_descriptor E)
                     else Returns () s)"

subsection \<open>Events and the event queue\<close>

definition DirMovedEvent :: "path \<Rightarrow> path \<Rightarrow> event" where
  "DirMovedEvent src dest =
     \<lparr>event_type = EVENT_TYPE_MOVED, is_directory = True, src_path = src, dest_path = Some dest\<rparr>"

definition DirDeletedEvent :: "path \<Rightarrow> event" where
  "DirDeletedEvent src =
     \<lparr>event_type = EVENT_TYPE_DELETED, is_directory = True, src_path = src, dest_path = None\<rparr>"

definition DirCreatedEvent :: "path \<Rightarrow> event" where
  "DirCreatedEvent src =
     \<lparr>event_type = EVENT_TYPE_CREATED, is_directory = True, src_path = src, dest_path = None\<rparr>"

definition DirModifiedEvent :: "path \<Rightarrow> event" where
  "DirModifiedEvent src =
     \<lparr>event_type = EVENT_TYPE_MODIFIED, is_directory = True, src_path = src, dest_path = None\<rparr>"

definition FileMovedEvent :: "path \<Rightarrow> path \<Rightarrow> event" where
  "FileMovedEvent src dest =
     \<lparr>event_type = EVENT_TYPE_MOVED, is_directory = False, src_path = src, dest_path = Some dest\<rparr>"

definition FileDeletedEvent :: "path \<Rightarrow> event" where
  "FileDeletedEvent src =
     \<lparr>event_type = EVENT_TYPE_DELETED, is_directory = False, src_path = src, dest_path = None\<rparr>"

definition FileCreatedEvent :: "path \<Rightarrow> event" where
  "FileCreatedEvent src =
     \<lparr>event_type = EVENT_TYPE_CREATED, is_directory = False, src_path = src, dest_path = None\<rparr>"

definition FileModifiedEvent :: "path \<Rightarrow> event" where
  "FileModifiedEvent src =
     \<lparr>event_type = EVENT_TYPE_MODIFIED, is_directory = False, src_path = src, dest_path = None\<rparr>"

subsection \<open>KqueueEmitter\<close>

text \<open>
  Modelled from the spec: the Event Queue, a "FIFO sequence of CanonicalEvent",
  "append-only from the core's perspective", to which \<^verbatim>\<open>EventEmitter.queue_event\<close> of
  \<^verbatim>\<open>watchdog/observers/api.py\<close> (not among the sources) appends.
\<close>

definition EventEmitter_queue_event :: "event \<Rightarrow> emitter \<Rightarrow> emitter" where
  "EventEmitter_queue_event ev em = em\<lparr>event_queue := event_queue em @ [ev]\<rparr>"

text \<open>A call on \<^verbatim>\<open>self._descriptors\<close>, seen from the emitter.\<close>

definition on_descriptors ::
  "(descriptor_set \<Rightarrow> ('a, descriptor_set) res) \<Rightarrow> emitter \<Rightarrow> ('a, emitter) res" where
  "on_descriptors f em =
     (case f (em_descriptors em) of
        Returns a ds \<Rightarrow> Returns a (em\<lparr>em_descriptors := ds\<rparr>)
      | Raises e ds \<Rightarrow> Raises e (em\<lparr>em_descriptors := ds\<rparr>)
      | Blocks \<Rightarrow> Blocks)"

definition unregister :: "env \<Rightarrow> path \<Rightarrow> emitter \<Rightarrow> (unit, emitter) res" where
  "unregister E p = on_descriptors (remove E p)"

text \<open>
  \<^verbatim>\<open>queue_event\<close> and \<^verbatim>\<open>_register\<close> call each other: a moved event registers its
  destination, and a registration that fails with \<^verbatim>\<open>ENOENT\<close> queues a created and a
  deleted event. An event without a \<^verbatim>\<open>dest_path\<close> attribute raises
  \<^verbatim>\<open>AttributeError\<close> where it is read.
\<close>

function queue_event :: "env \<Rightarrow> event \<Rightarrow> emitter \<Rightarrow> (unit, emitter) res"
  and register :: "env \<Rightarrow> path \<Rightarrow> bool \<Rightarrow> emitter \<Rightarrow> (unit, emitter) res"
where
  "queue_event E ev em =
     (if event_type ev = EVENT_TYPE_MOVED then
        (case unregister E (src_path ev) em of
           Returns u em1 \<Rightarrow>
             (case dest_path ev of
                None \<Rightarrow> Raises AttributeError em1
              | Some dest \<Rightarrow>
                  (case register E dest (is_directory ev) em1 of
                     Returns u' em2 \<Rightarrow> Returns () (EventEmitter_queue_event ev em2)
                   | Raises e em2 \<Rightarrow> Raises e em2
                   | Blocks \<Rightarrow> Blocks))
         | Raises e em1 \<Rightarrow> Raises e em1
         | Blocks \<Rightarrow> Blocks)
      else if event_type ev = EVENT_TYPE_DELETED then
        (case unregister E (src_path ev) em of
           Returns u em1 \<Rightarrow> Returns () (EventEmitter_queue_event ev em1)
         | Raises e em1 \<Rightarrow> Raises e em1
         | Blocks \<Rightarrow> Blocks)
      else Returns () (EventEmitter_queue_event ev em))"
| "register E p is_dir em =
     (case on_descriptors (add E p is_dir) em of
        Returns u em1 \<Rightarrow> Returns () em1
      | Raises e em1 \<Rightarrow>
          (case e of
             OSError n \<Rightarrow>
               if n = ENOENT then
                 (let p = absolute_path p in
                  if is_dir then
                    (case queue_event E (DirCreatedEvent p) em1 of
                       Returns u em2 \<Rightarrow> queue_event E (DirDeletedEvent p) em2
                     | Raises e2 em2 \<Rightarrow> Raises e2 em2
                     | Blocks \<Rightarrow> Blocks)
                  else
                    (case queue_event E (FileCreatedEvent p) em1 of
                       Returns u em2 \<Rightarrow> queue_event E (FileDeletedEvent p) em2
                     | Raises e2 em2 \<Rightarrow> Raises e2 em2
                     | Blocks \<Rightarrow> Blocks))
               else Raises e em1
           | _ \<Rightarrow> Raises e em1)
      | Blocks \<Rightarrow> Blocks)"
  by pat_completeness auto
termination
  by (relation "measure (\<lambda>x. case x of
                   Inl (E, ev, em) \<Rightarrow> if event_type ev = EVENT_TYPE_MOVED then 2 else 0
                 | Inr (E, p, is_dir, em) \<Rightarrow> 1)")
     (auto simp: DirCreatedEvent_def DirDeletedEvent_def FileCreatedEvent_def FileDeletedEvent_def)

text \<open>
  \<^verbatim>\<open>_queue_file_renamed\<close>. The first handler queues a created and a deleted event and
  ends with \<^verbatim>\<open>continue\<close>, outside any loop: from there on the call is the
  environment's. The second \<^verbatim>\<open>try\<close> covers the queueing of the moved event as well
  as the lookup.
\<close>

definition queue_file_renamed ::
  "env \<Rightarrow> path \<Rightarrow> snapshot \<Rightarrow> snapshot \<Rightarrow> emitter \<Rightarrow> (unit, emitter) res" where
  "queue_file_renamed E src ref_snapshot new_snapshot em =
     (case stat_info ref_snapshot src of
        Inl e \<Rightarrow>
          (if e = KeyError then
             and_then
               (and_then (queue_event E (FileCreatedEvent src) em)
                  (\<lambda>u. queue_event E (FileDeletedEvent src)))
               (\<lambda>u. continue_outside_loop E)
           else Raises e em)
      | Inr ref_stat_info \<Rightarrow>
          (case path_for_inode new_snapshot (st_ino ref_stat_info) of
             Inl e \<Rightarrow>
               (if e = KeyError then queue_event E (FileDeletedEvent src) em
                else Raises e em)
           | Inr dest \<Rightarrow>
               (case queue_event E (FileMovedEvent src dest) em of
                  Raises e em1 \<Rightarrow>
                    (if e = KeyError then queue_event E (FileDeletedEvent src) em1
                     else Raises e em1)
                | Returns u em1 \<Rightarrow> Returns u em1
                | Blocks \<Rightarrow> Blocks)))"

text \<open>
  One turn of the loop of \<^verbatim>\<open>_queue_events_except_renames_and_dir_modifications\<close>,
  on the two sets it fills. The arguments of the call of \<^verbatim>\<open>_queue_file_renamed\<close> are
  evaluated from left to right.
\<close>

definition queue_kevent ::
  "env \<Rightarrow> kevent \<Rightarrow> path set \<times> path set \<Rightarrow> emitter \<Rightarrow> (path set \<times> path set, emitter) res" where
  "queue_kevent E kev acc em =
     (case acc of (dirs_renamed, dirs_modified) \<Rightarrow>
        and_then (on_descriptors (get_for_fd (ident kev)) em)
          (\<lambda>descriptor em.
             let src = d_path descriptor in
             if truthy (is_deleted kev) then
               (if d_is_directory descriptor then
                  and_then (queue_event E (DirDeletedEvent src) em) (\<lambda>u. Returns acc)
                else
                  and_then (queue_event E (FileDeletedEvent src) em) (\<lambda>u. Returns acc))
             else if truthy (is_attrib_modified kev) then
               (if d_is_directory descriptor then
                  and_then (queue_event E (DirModifiedEvent src) em) (\<lambda>u. Returns acc)
                else
                  and_then (queue_event E (FileModifiedEvent src) em) (\<lambda>u. Returns acc))
             else if truthy (is_modified kev) then
               (if d_is_directory descriptor then
                  Returns (dirs_renamed, insert src dirs_modified) em
                else
                  and_then (queue_event E (FileModifiedEvent src) em) (\<lambda>u. Returns acc))
             else if truthy (is_renamed kev) then
               (if d_is_directory descriptor then
                  Returns (insert src dirs_renamed, dirs_modified) em
                else
                  (case name_ref_snapshot E of
                     None \<Rightarrow> Raises NameError em
                   | Some ref_snapshot \<Rightarrow>
                       (case name_new_snapshot E of
                          None \<Rightarrow> Raises NameError em
                        | Some new_snapshot \<Rightarrow>
                            and_then (queue_file_renamed E src ref_snapshot new_snapshot em)
                              (\<lambda>u. Returns acc))))
             else Returns acc em))"

fun queue_kevents ::
  "env \<Rightarrow> kevent list \<Rightarrow> path set \<times> path set \<Rightarrow> emitter \<Rightarrow> (path set \<times> path set, emitter) res" where
  "queue_kevents E [] acc em = Returns acc em"
| "queue_kevents E (kev # event_list) acc em =
     and_then (queue_kevent E kev acc em) (queue_kevents E event_list)"

text \<open>The function returns \<^verbatim>\<open>files_renamed, dirs_renamed, dirs_modified\<close>; nothing is
  ever added to \<^verbatim>\<open>files_renamed\<close>.\<close>

definition queue_events_except_renames_and_dir_modifications ::
  "env \<Rightarrow> kevent list \<Rightarrow> emitter \<Rightarrow> (path set \<times> path set \<times> path set, emitter) res" where
  "queue_events_except_renames_and_dir_modifications E event_list em =
     and_then (queue_kevents E event_list ({}, {}) em)
       (\<lambda>acc. case acc of (dirs_renamed, dirs_modified) \<Rightarrow>
                 Returns ({}, dirs_renamed, dirs_modified))"

text \<open>\<^verbatim>\<open>_queue_from_dirs_renamed\<close> and \<^verbatim>\<open>_queue_from_dirs_modified\<close>: both bodies
  are \<^verbatim>\<open>pass\<close>.\<close>

definition queue_from_dirs_renamed ::
  "snapshot \<Rightarrow> snapshot \<Rightarrow> path set \<Rightarrow> emitter \<Rightarrow> (unit, emitter) res" where
  "queue_from_dirs_renamed a b c em = Returns () em"

definition queue_from_dirs_modified ::
  "snapshot \<Rightarrow> snapshot \<Rightarrow> path set \<Rightarrow> emitter \<Rightarrow> (unit, emitter) res" where
  "queue_from_dirs_modified a b c em = Returns () em"

text \<open>
  The property \<^verbatim>\<open>kevents\<close> of the descriptor set: the list of the kevents, built
  under the lock. The order of the list is never read; the model keeps the set.
\<close>

definition kevents_prop :: "descriptor_set \<Rightarrow> (kevent set, descriptor_set) res" where
  "kevents_prop = with_lock (\<lambda>s. Returns (kevents s) s)"

text \<open>
  \<^verbatim>\<open>self._descriptors.kevents()\<close> calls the list that the property has returned: a
  list is not callable, and the call raises \<^verbatim>\<open>TypeError\<close>.
\<close>

definition call_list :: "kevent set \<Rightarrow> emitter \<Rightarrow> (kevent set, emitter) res" where
  "call_list ks em = Raises TypeError em"

text \<open>\<^verbatim>\<open>_read_events\<close>: the timeout is only handed to \<^verbatim>\<open>kqueue.control\<close>.\<close>

definition read_events ::
  "env \<Rightarrow> kevent set \<Rightarrow> int \<Rightarrow> emitter \<Rightarrow> (kevent list, emitter) res" where
  "read_events E kevent_list timeout em =
     (case kq_control E kevent_list timeout of
        Inl n \<Rightarrow> Raises (OSError n) em
      | Inr event_list \<Rightarrow> Returns event_list em)"

text \<open>
  \<^verbatim>\<open>dirs_renamed, dir_modified = ...\<close> unpacks the tuple of three sets that the call
  returns into two names, which raises \<^verbatim>\<open>ValueError\<close>.
\<close>

definition unpack_two ::
  "path set \<times> path set \<times> path set \<Rightarrow> emitter \<Rightarrow> (path set \<times> path set, emitter) res" where
  "unpack_two t em = Raises ValueError em"

text \<open>
  The body of the loop of \<^verbatim>\<open>queue_events\<close>, statement by statement. In
  \<^verbatim>\<open>a or b\<close> the name \<^verbatim>\<open>dirs_modified\<close> is read only when \<^verbatim>\<open>dirs_renamed\<close> is
  empty; the call of \<^verbatim>\<open>_queue_from_dirs_modified\<close> reads it in any case.
\<close>

definition queue_events_body :: "env \<Rightarrow> int \<Rightarrow> emitter \<Rightarrow> (unit, emitter) res" where
  "queue_events_body E timeout em =
     and_then (on_descriptors kevents_prop em) (\<lambda>ks em.
     and_then (call_list ks em) (\<lambda>kevent_list em.
     and_then (read_events E kevent_list timeout em) (\<lambda>event_list em.
     and_then (queue_events_except_renames_and_dir_modifications E event_list em) (\<lambda>result em.
     and_then (unpack_two result em) (\<lambda>names em.
       case names of (dirs_renamed, dir_modified) \<Rightarrow>
         (case name_watch E of
            None \<Rightarrow> Raises NameError em
          | Some watch \<Rightarrow>
              (case DirectorySnapshot E (fst watch) (snd watch) of
                 Inl e \<Rightarrow> Raises e em
               | Inr new_snapshot \<Rightarrow>
                   (let ref_snapshot = em_snapshot em;
                        em = em\<lparr>em_snapshot := new_snapshot\<rparr>
                    in
                    if dirs_renamed \<noteq> {} then
                      and_then (queue_from_dirs_renamed ref_snapshot new_snapshot dirs_renamed em)
                        (\<lambda>u em. case name_dirs_modified E of
                                   None \<Rightarrow> Raises NameError em
                                 | Some dirs_modified \<Rightarrow>
                                     queue_from_dirs_modified ref_snapshot new_snapshot
                                       dirs_modified em)
                    else
                      (case name_dirs_modified E of
                         None \<Rightarrow> Raises NameError em
                       | Some dirs_modified \<Rightarrow>
                           if dirs_modified \<noteq> {} then
                             and_then
                               (queue_from_dirs_renamed ref_snapshot new_snapshot dirs_renamed em)
                               (\<lambda>u. queue_from_dirs_modified ref_snapshot new_snapshot
                                      dirs_modified)
                           else Returns () em)))))))))"

text \<open>
  \<^verbatim>\<open>while self._lock:\<close> the lock object is always true, so the loop ends only by an
  exception or never. The third argument bounds the number of turns the model follows;
  \<open>None\<close> is a loop that is still running after that many.
\<close>

fun queue_events_while :: "env \<Rightarrow> int \<Rightarrow> nat \<Rightarrow> emitter \<Rightarrow> (unit, emitter) res option" where
  "queue_events_while E timeout 0 em = None"
| "queue_events_while E timeout (Suc n) em =
     (case queue_events_body E timeout em of
        Returns u em' \<Rightarrow> queue_events_while E timeout n em'
      | Raises e em' \<Rightarrow> Some (Raises e em')
      | Blocks \<Rightarrow> Some Blocks)"

text \<open>
  The handler \<^verbatim>\<open>except OSerror, e:\<close> around the loop. The name is looked up when an
  exception arrives; \<^verbatim>\<open>e.errno\<close> exists for an \<^verbatim>\<open>OSError\<close> only.
\<close>

definition except_OSerror :: "env \<Rightarrow> exn \<Rightarrow> emitter \<Rightarrow> (unit, emitter) res" where
  "except_OSerror E e em =
     (case name_OSerror E of
        None \<Rightarrow> Raises NameError em
      | Some is_instance \<Rightarrow>
          if is_instance e then
            (case e of
               OSError n \<Rightarrow> if n = EBADF then continue_outside_loop E em else Raises e em
             | _ \<Rightarrow> Raises AttributeError em)
          else Raises e em)"

definition queue_events :: "env \<Rightarrow> int \<Rightarrow> nat \<Rightarrow> emitter \<Rightarrow> (unit, emitter) res option" where
  "queue_events E timeout n em =
     (case queue_events_while E timeout n em of
        None \<Rightarrow> None
      | Some r \<Rightarrow>
          Some (case r of
                  Raises e em' \<Rightarrow> except_OSerror E e em'
                | Returns u em' \<Rightarrow> Returns u em'
                | Blocks \<Rightarrow> Blocks))"


text \<open>The event queue of the emitter in which a call ends.\<close>

definition events_of :: "('a, emitter) res \<Rightarrow> event list" where
  "events_of r =
     (case r of Returns a em \<Rightarrow> event_queue em | Raises e em \<Rightarrow> event_queue em | Blocks \<Rightarrow> [])"

subsection \<open>Sequences of calls on a descriptor set\<close>





subsection \<open>Concrete states\<close>

definition ex_stat :: "inode \<Rightarrow> stat_result" where
  "ex_stat i = \<lparr>st_ino = i, st_isdir = False, st_mtime = 0, st_size = 0\<rparr>"

definition ex_ref_snapshot :: snapshot where
  "ex_ref_snapshot =
     \<lparr>stat_snapshot = [''/w/a'' \<mapsto> ex_stat 11, ''/w/c'' \<mapsto> ex_stat 12],
      inode_to_path = [11 \<mapsto> ''/w/a'', 12 \<mapsto> ''/w/c'']\<rparr>"

definition ex_new_snapshot :: snapshot where
  "ex_new_snapshot =
     \<lparr>stat_snapshot = [''/w/b'' \<mapsto> ex_stat 11, ''/w/c'' \<mapsto> ex_stat 13],
      inode_to_path = [11 \<mapsto> ''/w/b'', 13 \<mapsto> ''/w/c'']\<rparr>"

text \<open>A signal as \<^verbatim>\<open>kqueue.control\<close> returns it: the handle and the flags of what happened.\<close>

definition ex_kevent :: "fd \<Rightarrow> 32 word \<Rightarrow> kevent" where
  "ex_kevent h f =
     \<lparr>ident = h, kq_filter = WATCHDOG_KQ_FILTER, flags = WATCHDOG_KQ_EV_FLAGS, fflags = f\<rparr>"

definition is_OSError :: "exn \<Rightarrow> bool" where
  "is_OSError e = (case e of OSError n \<Rightarrow> True | _ \<Rightarrow> False)"

text \<open>
  The module as it stands, in a directory where \<^verbatim>\<open>/w/a\<close> and \<^verbatim>\<open>/w/b\<close> can be
  opened, \<^verbatim>\<open>/w/full\<close> cannot because the process is out of handles (\<^verbatim>\<open>EMFILE\<close>)
  and every other path is gone (\<^verbatim>\<open>ENOENT\<close>); the kernel has a write to report on
  handle 5. None of the names is bound.
\<close>

definition module_env :: env where
  "module_env =
     \<lparr>os_open = (\<lambda>p. if p = ''/w/a'' then Inr 3 else if p = ''/w/b'' then Inr 4
                       else if p = ''/w/full'' then Inl EMFILE else Inl ENOENT),
      os_close = (\<lambda>h. None),
      DirectorySnapshot = (\<lambda>p r. Inr ex_new_snapshot),
      kq_control = (\<lambda>ks t. Inr [ex_kevent 5 KQ_NOTE_WRITE]),
      name_kev = None,
      name_ref_snapshot = None,
      name_new_snapshot = None,
      name_watch = None,
      name_dirs_modified = None,
      name_OSerror = None,
      continue_outside_loop = (\<lambda>em. Raises SyntaxError em)\<rparr>"

text \<open>The same, with every name bound; \<^verbatim>\<open>OSerror\<close> is bound to the class \<^verbatim>\<open>OSError\<close>.\<close>

definition ex_env :: env where
  "ex_env =
     \<lparr>os_open = (\<lambda>p. if p = ''/w/a'' then Inr 3 else if p = ''/w/b'' then Inr 4
                       else if p = ''/w/full'' then Inl EMFILE else Inl ENOENT),
      os_close = (\<lambda>h. None),
      DirectorySnapshot = (\<lambda>p r. Inr ex_new_snapshot),
      kq_control = (\<lambda>ks t. Inr [ex_kevent 5 KQ_NOTE_WRITE]),
      name_kev = Some \<lparr>ident = 0, kq_filter = 0, flags = 0, fflags = 0\<rparr>,
      name_ref_snapshot = Some ex_ref_snapshot,
      name_new_snapshot = Some ex_new_snapshot,
      name_watch = Some (''/w'', True),
      name_dirs_modified = Some {},
      name_OSerror = Some is_OSError,
      continue_outside_loop = (\<lambda>em. Raises SyntaxError em)\<rparr>"

definition ex_descriptor :: "path \<Rightarrow> bool \<Rightarrow> fd \<Rightarrow> descriptor" where
  "ex_descriptor p is_dir h =
     \<lparr>d_path = p, d_is_directory = is_dir, d_fd = h,
      d_kev = \<lparr>ident = h, kq_filter = WATCHDOG_KQ_FILTER, flags = WATCHDOG_KQ_EV_FLAGS,
               fflags = WATCHDOG_KQ_FFLAGS\<rparr>\<rparr>"

text \<open>A set that holds one descriptor, for the file \<^verbatim>\<open>/w/a\<close> on handle 3:
  \<^verbatim>\<open>_add_descriptor\<close> of that descriptor on a new set.\<close>

definition ex_set_a :: descriptor_set where
  "ex_set_a = add_descriptor (ex_descriptor ''/w/a'' False 3) KeventDescriptorSet"


definition ex_emitter :: emitter where
  "ex_emitter =
     \<lparr>em_descriptors = KeventDescriptorSet, em_snapshot = ex_ref_snapshot, event_queue = []\<rparr>"

definition ex_emitter_a :: emitter where
  "ex_emitter_a =
     \<lparr>em_descriptors = ex_set_a, em_snapshot = ex_ref_snapshot, event_queue = []\<rparr>"

text \<open>An emitter that watches the file \<^verbatim>\<open>/w/a\<close> on handle 3 and the file \<^verbatim>\<open>/w/c\<close> on
  handle 6.\<close>

definition ex_emitter_ac :: emitter where
  "ex_emitter_ac =
     \<lparr>em_descriptors = add_descriptor (ex_descriptor ''/w/c'' False 6) ex_set_a,
      em_snapshot = ex_ref_snapshot, event_queue = []\<rparr>"

text \<open>An emitter that watches the directory \<^verbatim>\<open>/w\<close> on handle 5.\<close>

definition ex_emitter_w :: emitter where
  "ex_emitter_w =
     \<lparr>em_descriptors = add_descriptor (ex_descriptor ''/w'' True 5) KeventDescriptorSet,
      em_snapshot = ex_ref_snapshot, event_queue = []\<rparr>"

section \<open>Properties\<close>

subsection \<open>The descriptor set\<close>

lemma lock_release_id: "\<not> lock s \<Longrightarrow> s\<lparr>lock := False\<rparr> = s"
  by (cases s) simp

lemma get_for_fd_free:
  "\<not> lock s \<Longrightarrow> get_for_fd h s =
     (case descriptor_for_fd s h of None \<Rightarrow> Raises KeyError s | Some d \<Rightarrow> Returns d s)"
  by (simp add: get_for_fd_def with_lock_def lock_release_id split: option.splits)

lemma close_fields [simp]:
  "descriptors (close E d s) = descriptors s"
  "descriptor_for_path (close E d s) = descriptor_for_path s"
  "descriptor_for_fd (close E d s) = descriptor_for_fd s"
  "kevents (close E d s) = kevents s"
  "lock (close E d s) = lock s"
  "closed (close E d s) = closed s @ [d_fd d]"
  by (simp_all add: close_def split: option.splits)

lemma remove_registered:
  "\<not> lock s \<Longrightarrow> has_path s (absolute_path p) \<Longrightarrow> remove E p s = Blocks"
  by (simp add: remove_def with_lock_def getitem_def and_then_def has_path_def)

lemma remove_absent:
  "\<not> lock s \<Longrightarrow> \<not> has_path s (absolute_path p) \<Longrightarrow> remove E p s = Returns () s"
  by (simp add: remove_def with_lock_def has_path_def lock_release_id)






lemma add_free:
  "\<not> lock s \<Longrightarrow> add E p is_dir s =
     (if has_path s (absolute_path p) then Returns () s
      else (case KeventDescriptor E (absolute_path p) is_dir of
              Inl e \<Rightarrow> Raises e s
            | Inr d \<Rightarrow> Returns () (add_descriptor d s)))"
  by (simp add: add_def with_lock_def lock_release_id Let_def has_path_def absolute_path_def
           add_descriptor_def split: sum.splits)






text \<open>
  Claim C8. The claim says that \<^verbatim>\<open>remove\<close> of a registered path completes, closes the
  handle and takes the entry out of both indices. In the code the call never returns:
  \<^verbatim>\<open>remove\<close> holds the lock of the set while it evaluates \<^verbatim>\<open>self[path]\<close>, and
  \<^verbatim>\<open>__getitem__\<close> waits for that same lock. Here the set holds one descriptor, for
  \<^verbatim>\<open>/w/a\<close>, and its lock is free; \<^verbatim>\<open>remove('/w/a')\<close> blocks, and nothing has been
  closed or removed.
\<close>

theorem remove_registered_path_blocks:
  "\<not> lock ex_set_a \<and> descriptor_for_path ex_set_a ''/w/a'' = Some (ex_descriptor ''/w/a'' False 3) \<and>
   remove ex_env ''/w/a'' ex_set_a = Blocks"
  by (simp add: ex_set_a_def add_descriptor_def KeventDescriptorSet_def ex_descriptor_def
      remove_def with_lock_def getitem_def and_then_def has_path_def absolute_path_def Let_def)

text \<open>
  Claim C9. The claim says that after \<^verbatim>\<open>remove\<close> of a registered path,
  \<^verbatim>\<open>get_for_fd\<close> on the former handle of its descriptor fails with \<^verbatim>\<open>KeyError\<close>.
  In the code nothing ever takes a handle out of the index: \<^verbatim>\<open>remove\<close> of a
  registered path waits for ever in \<^verbatim>\<open>self[path]\<close> on the lock it holds itself,
  before \<^verbatim>\<open>_remove_descriptor\<close>. Here the set holds the descriptor of \<^verbatim>\<open>/w/a\<close> on
  handle 3: before the call \<^verbatim>\<open>get_for_fd(3)\<close> returns the descriptor; the call
  blocks; and with the lock held as the call leaves it, \<^verbatim>\<open>get_for_fd(3)\<close> waits as
  well and raises nothing, while the index still holds the handle.
\<close>

theorem removed_handle_not_forgotten:
  "get_for_fd 3 ex_set_a = Returns (ex_descriptor ''/w/a'' False 3) ex_set_a \<and>
   remove module_env ''/w/a'' ex_set_a = Blocks \<and>
   descriptor_for_fd (ex_set_a\<lparr>lock := True\<rparr>) 3 = Some (ex_descriptor ''/w/a'' False 3) \<and>
   get_for_fd 3 (ex_set_a\<lparr>lock := True\<rparr>) = Blocks"
proof -
  have free: "\<not> lock ex_set_a"
    and reg: "has_path ex_set_a (absolute_path ''/w/a'')"
    and idx: "descriptor_for_fd ex_set_a 3 = Some (ex_descriptor ''/w/a'' False 3)"
    by (simp_all add: ex_set_a_def add_descriptor_def KeventDescriptorSet_def
        ex_descriptor_def has_path_def absolute_path_def Let_def)
  have "get_for_fd 3 ex_set_a = Returns (ex_descriptor ''/w/a'' False 3) ex_set_a"
    using free idx by (simp add: get_for_fd_free)
  moreover have "remove module_env ''/w/a'' ex_set_a = Blocks"
    using free reg by (rule remove_registered)
  moreover have "get_for_fd 3 (ex_set_a\<lparr>lock := True\<rparr>) = Blocks"
    by (simp add: get_for_fd_def with_lock_def)
  ultimately show ?thesis
    using idx by simp
qed

subsection \<open>The emitter\<close>

declare queue_event.simps [simp del] register.simps [simp del]

lemma emitter_same_descriptors: "em\<lparr>em_descriptors := em_descriptors em\<rparr> = em"
  by (cases em) simp

lemma unregister_absent:
  "\<not> lock (em_descriptors em) \<Longrightarrow> \<not> has_path (em_descriptors em) (absolute_path p) \<Longrightarrow>
     unregister E p em = Returns () em"
  by (simp add: unregister_def on_descriptors_def remove_absent emitter_same_descriptors)

lemma unregister_registered:
  "\<not> lock (em_descriptors em) \<Longrightarrow> has_path (em_descriptors em) (absolute_path p) \<Longrightarrow>
     unregister E p em = Blocks"
  by (simp add: unregister_def on_descriptors_def remove_registered)

lemma unregister_cases:
  assumes "\<not> lock (em_descriptors em)"
  shows "unregister E p em =
           (if has_path (em_descriptors em) (absolute_path p) then Blocks else Returns () em)"
  using assms by (simp add: unregister_absent unregister_registered)

lemma queue_event_plain:
  "event_type ev \<noteq> EVENT_TYPE_MOVED \<Longrightarrow> event_type ev \<noteq> EVENT_TYPE_DELETED \<Longrightarrow>
     queue_event E ev em = Returns () (EventEmitter_queue_event ev em)"
  by (simp add: queue_event.simps)

lemma queue_event_deleted:
  "\<not> lock (em_descriptors em) \<Longrightarrow> event_type ev = EVENT_TYPE_DELETED \<Longrightarrow>
     queue_event E ev em =
       (if has_path (em_descriptors em) (absolute_path (src_path ev)) then Blocks
        else Returns () (EventEmitter_queue_event ev em))"
  by (simp add: queue_event.simps unregister_cases)

lemma event_fields [simp]:
  "event_type (DirMovedEvent a b) = EVENT_TYPE_MOVED"
  "event_type (FileMovedEvent a b) = EVENT_TYPE_MOVED"
  "event_type (DirDeletedEvent a) = EVENT_TYPE_DELETED"
  "event_type (FileDeletedEvent a) = EVENT_TYPE_DELETED"
  "event_type (DirCreatedEvent a) = EVENT_TYPE_CREATED"
  "event_type (FileCreatedEvent a) = EVENT_TYPE_CREATED"
  "event_type (DirModifiedEvent a) = EVENT_TYPE_MODIFIED"
  "event_type (FileModifiedEvent a) = EVENT_TYPE_MODIFIED"
  "src_path (DirMovedEvent a b) = a" "src_path (FileMovedEvent a b) = a"
  "src_path (DirDeletedEvent a) = a" "src_path (FileDeletedEvent a) = a"
  "src_path (DirCreatedEvent a) = a" "src_path (FileCreatedEvent a) = a"
  "src_path (DirModifiedEvent a) = a" "src_path (FileModifiedEvent a) = a"
  "dest_path (DirMovedEvent a b) = Some b" "dest_path (FileMovedEvent a b) = Some b"
  "is_directory (DirMovedEvent a b)" "\<not> is_directory (FileMovedEvent a b)"
  by (simp_all add: DirMovedEvent_def FileMovedEvent_def DirDeletedEvent_def
      FileDeletedEvent_def DirCreatedEvent_def FileCreatedEvent_def DirModifiedEvent_def
      FileModifiedEvent_def)

lemma queue_fields [simp]:
  "em_descriptors (EventEmitter_queue_event ev em) = em_descriptors em"
  "em_snapshot (EventEmitter_queue_event ev em) = em_snapshot em"
  "event_queue (EventEmitter_queue_event ev em) = event_queue em @ [ev]"
  by (simp_all add: EventEmitter_queue_event_def)

lemma on_descriptors_add:
  assumes "\<not> lock (em_descriptors em)"
  shows "on_descriptors (add E p is_dir) em =
     (if has_path (em_descriptors em) (absolute_path p) then Returns () em
      else (case KeventDescriptor E (absolute_path p) is_dir of
              Inl e \<Rightarrow> Raises e em
            | Inr d \<Rightarrow> Returns () (em\<lparr>em_descriptors := add_descriptor d (em_descriptors em)\<rparr>)))"
  using assms
  by (simp add: on_descriptors_def add_free emitter_same_descriptors split: sum.splits)

lemma register_cases:
  assumes "\<not> lock (em_descriptors em)"
  shows "register E p is_dir em =
     (if has_path (em_descriptors em) (absolute_path p) then Returns () em
      else (case KeventDescriptor E (absolute_path p) is_dir of
              Inr d \<Rightarrow> Returns () (em\<lparr>em_descriptors := add_descriptor d (em_descriptors em)\<rparr>)
            | Inl e \<Rightarrow>
                if e = OSError ENOENT then
                  Returns () (EventEmitter_queue_event
                    (if is_dir then DirDeletedEvent (absolute_path p)
                     else FileDeletedEvent (absolute_path p))
                    (EventEmitter_queue_event
                      (if is_dir then DirCreatedEvent (absolute_path p)
                       else FileCreatedEvent (absolute_path p)) em))
                else Raises e em))"
proof (cases "has_path (em_descriptors em) (absolute_path p)")
  case True
  with assms show ?thesis
    by (simp add: register.simps on_descriptors_add)
next
  case False
  show ?thesis
  proof (cases "KeventDescriptor E (absolute_path p) is_dir")
    case (Inr d)
    with assms False show ?thesis
      by (simp add: register.simps on_descriptors_add)
  next
    case (Inl e)
    have np: "\<not> has_path (em_descriptors em) (absolute_path (absolute_path p))"
      using False by (simp add: absolute_path_def)
    show ?thesis
    proof (cases "e = OSError ENOENT")
      case True
      with assms False Inl np show ?thesis
        by (simp add: register.simps on_descriptors_add Let_def queue_event_plain
            queue_event_deleted)
    next
      case False
      with assms \<open>\<not> has_path (em_descriptors em) (absolute_path p)\<close> Inl show ?thesis
        by (cases e) (simp_all add: register.simps on_descriptors_add)
    qed
  qed
qed

lemma on_descriptors_get_for_fd:
  "\<not> lock (em_descriptors em) \<Longrightarrow>
     on_descriptors (get_for_fd h) em =
       (case descriptor_for_fd (em_descriptors em) h of
          None \<Rightarrow> Raises KeyError em
        | Some d \<Rightarrow> Returns d em)"
  by (simp add: on_descriptors_def get_for_fd_free emitter_same_descriptors split: option.splits)

lemma queue_kevent_unknown:
  "\<not> lock (em_descriptors em) \<Longrightarrow> descriptor_for_fd (em_descriptors em) (ident kev) = None \<Longrightarrow>
     queue_kevent E kev acc em = Raises KeyError em"
  by (cases acc) (simp add: queue_kevent_def on_descriptors_get_for_fd and_then_def)

lemma queue_kevent_known:
  assumes "\<not> lock (em_descriptors em)"
    and "descriptor_for_fd (em_descriptors em) (ident kev) = Some d"
  shows "queue_kevent E kev acc em =
     (if fflags kev AND KQ_NOTE_DELETE \<noteq> 0 then
        and_then (queue_event E (if d_is_directory d then DirDeletedEvent (d_path d)
                                 else FileDeletedEvent (d_path d)) em) (\<lambda>u. Returns acc)
      else if fflags kev AND KQ_NOTE_ATTRIB \<noteq> 0 then
        Returns acc (EventEmitter_queue_event
          (if d_is_directory d then DirModifiedEvent (d_path d)
           else FileModifiedEvent (d_path d)) em)
      else if fflags kev AND KQ_NOTE_WRITE \<noteq> 0 \<or> fflags kev AND KQ_NOTE_EXTEND \<noteq> 0 then
        (if d_is_directory d then Returns (fst acc, insert (d_path d) (snd acc)) em
         else Returns acc (EventEmitter_queue_event (FileModifiedEvent (d_path d)) em))
      else if fflags kev AND KQ_NOTE_RENAME \<noteq> 0 then
        (if d_is_directory d then Returns (insert (d_path d) (fst acc), snd acc) em
         else
           (case name_ref_snapshot E of
              None \<Rightarrow> Raises NameError em
            | Some ref_snapshot \<Rightarrow>
                (case name_new_snapshot E of
                   None \<Rightarrow> Raises NameError em
                 | Some new_snapshot \<Rightarrow>
                     and_then (queue_file_renamed E (d_path d) ref_snapshot new_snapshot em)
                       (\<lambda>u. Returns acc))))
      else Returns acc em)"
  using assms
  by (cases acc)
     (auto simp: queue_kevent_def on_descriptors_get_for_fd and_then_def truthy_def
        is_deleted_def is_attrib_modified_def is_modified_def is_renamed_def Let_def
        queue_event_plain)

lemma queue_kevents_append:
  "queue_kevents E (xs @ ys) acc em = and_then (queue_kevents E xs acc em) (queue_kevents E ys)"
proof (induction xs arbitrary: acc em)
  case Nil
  show ?case by (simp add: and_then_def)
next
  case (Cons kev xs)
  show ?case
    by (cases "queue_kevent E kev acc em") (simp_all add: and_then_def Cons.IH)
qed

lemma queue_event_moved:
  assumes "\<not> lock (em_descriptors em)" and "event_type ev = EVENT_TYPE_MOVED"
    and "dest_path ev = Some dest"
  shows "queue_event E ev em =
     (if has_path (em_descriptors em) (absolute_path (src_path ev)) then Blocks
      else (case register E dest (is_directory ev) em of
              Returns u em2 \<Rightarrow> Returns () (EventEmitter_queue_event ev em2)
            | Raises e em2 \<Rightarrow> Raises e em2
            | Blocks \<Rightarrow> Blocks))"
  using assms by (simp add: queue_event.simps unregister_cases)

lemma ex_emitter_facts:
  "\<not> lock (em_descriptors ex_emitter)"
  "\<not> lock (em_descriptors ex_emitter_a)"
  "has_path (em_descriptors ex_emitter) p = False"
  "has_path (em_descriptors ex_emitter_a) p = (p = ''/w/a'')"
  "descriptor_for_fd (em_descriptors ex_emitter_a) h =
     (if h = 3 then Some (ex_descriptor ''/w/a'' False 3) else None)"
  "event_queue ex_emitter = []"
  "event_queue ex_emitter_a = []"
  by (auto simp: ex_emitter_def ex_emitter_a_def ex_set_a_def KeventDescriptorSet_def
      add_descriptor_def has_path_def ex_descriptor_def Let_def)

lemma ex_emitter_ac_facts:
  "\<not> lock (em_descriptors ex_emitter_ac)"
  "has_path (em_descriptors ex_emitter_ac) p = (p = ''/w/a'' \<or> p = ''/w/c'')"
  by (auto simp: ex_emitter_ac_def ex_set_a_def KeventDescriptorSet_def
      add_descriptor_def has_path_def ex_descriptor_def Let_def)

lemma ex_emitter_w_facts:
  "\<not> lock (em_descriptors ex_emitter_w)"
  "descriptor_for_fd (em_descriptors ex_emitter_w) 5 = Some (ex_descriptor ''/w'' True 5)"
  by (auto simp: ex_emitter_w_def KeventDescriptorSet_def add_descriptor_def
      ex_descriptor_def Let_def)

lemma register_unbound_kev:
  assumes "\<not> lock (em_descriptors em)"
    and "\<not> has_path (em_descriptors em) (absolute_path p)"
    and "name_kev E = None"
  shows "register E p is_dir em = Raises NameError em"
proof -
  have "KeventDescriptor E (absolute_path p) is_dir = Inl NameError"
    using assms(3) by (simp add: KeventDescriptor_def)
  with assms(1,2) show ?thesis
    by (simp add: register_cases)
qed

lemma queue_file_renamed_tracked:
  assumes "\<not> lock (em_descriptors em)"
    and "has_path (em_descriptors em) (absolute_path src)"
    and "stat_snapshot ref_snapshot src = Some st"
  shows "queue_file_renamed E src ref_snapshot new_snapshot em = Blocks"
proof (cases "inode_to_path new_snapshot (st_ino st)")
  case None
  have "queue_event E (FileDeletedEvent src) em = Blocks"
    using assms(1,2) by (simp add: queue_event_deleted)
  with None assms(3) show ?thesis
    by (simp add: queue_file_renamed_def stat_info_def path_for_inode_def)
next
  case (Some dest)
  have "queue_event E (FileMovedEvent src dest) em = Blocks"
    using assms(1,2) by (simp add: queue_event_moved [where dest = dest])
  with Some assms(3) show ?thesis
    by (simp add: queue_file_renamed_def stat_info_def path_for_inode_def)
qed

lemma queue_events_body_TypeError:
  assumes "\<not> lock (em_descriptors em)"
  shows "queue_events_body E timeout em = Raises TypeError em"
proof -
  have "on_descriptors kevents_prop em = Returns (kevents (em_descriptors em)) em"
    using assms
    by (simp add: on_descriptors_def kevents_prop_def with_lock_def lock_release_id
        emitter_same_descriptors)
  then show ?thesis
    by (simp add: queue_events_body_def and_then_def call_list_def)
qed

lemma queue_events_first_turn:
  assumes "\<not> lock (em_descriptors em)"
  shows "queue_events E timeout (Suc n) em = Some (except_OSerror E TypeError em)"
  using assms by (simp add: queue_events_def queue_events_body_TypeError)

lemma ex_env_facts:
  "KeventDescriptor ex_env p is_dir =
     (if p = ''/w/a'' then Inr (ex_descriptor p is_dir 3)
      else if p = ''/w/b'' then Inr (ex_descriptor p is_dir 4)
      else if p = ''/w/full'' then Inl (OSError EMFILE)
      else Inl (OSError ENOENT))"
  "name_ref_snapshot ex_env = Some ex_ref_snapshot"
  "name_new_snapshot ex_env = Some ex_new_snapshot"
  "name_watch ex_env = Some (''/w'', True)"
  "DirectorySnapshot ex_env p r = Inr ex_new_snapshot"
  "name_dirs_modified ex_env = Some {}"
  by (simp_all add: ex_env_def KeventDescriptor_def ex_descriptor_def absolute_path_def)

lemma ex_kevent_fields [simp]:
  "ident (ex_kevent h f) = h" "fflags (ex_kevent h f) = f"
  by (simp_all add: ex_kevent_def)

lemma errno_distinct: "EMFILE \<noteq> ENOENT"
  by (simp add: EMFILE_def ENOENT_def)

subsection \<open>The claims about the emitter\<close>

text \<open>
  Claim C1. The claim says that resolving the rename of a file yields one moved event
  when the new snapshot has its inode, and a deleted event (with a created event when
  another entry has taken the path) when it has not. In the code the path handed to
  \<^verbatim>\<open>_queue_file_renamed\<close> is the path of the descriptor that reported the rename;
  \<^verbatim>\<open>queue_event\<close> starts by unregistering that path, and \<^verbatim>\<open>remove\<close> of a
  registered path never returns. Here the emitter watches \<^verbatim>\<open>/w/a\<close> and \<^verbatim>\<open>/w/c\<close>;
  the inode of \<^verbatim>\<open>/w/a\<close> is now at \<^verbatim>\<open>/w/b\<close>, the inode of \<^verbatim>\<open>/w/c\<close> is gone and
  another file has that path. Both calls block, and no event is queued.
\<close>

theorem watched_file_rename_blocks:
  "stat_snapshot ex_ref_snapshot ''/w/a'' = Some (ex_stat 11) \<and>
   inode_to_path ex_new_snapshot (st_ino (ex_stat 11)) = Some ''/w/b'' \<and>
   queue_file_renamed module_env ''/w/a'' ex_ref_snapshot ex_new_snapshot ex_emitter_ac = Blocks \<and>
   stat_snapshot ex_ref_snapshot ''/w/c'' = Some (ex_stat 12) \<and>
   inode_to_path ex_new_snapshot (st_ino (ex_stat 12)) = None \<and>
   stat_snapshot ex_new_snapshot ''/w/c'' = Some (ex_stat 13) \<and>
   queue_file_renamed module_env ''/w/c'' ex_ref_snapshot ex_new_snapshot ex_emitter_ac = Blocks"
proof -
  have sa: "stat_snapshot ex_ref_snapshot ''/w/a'' = Some (ex_stat 11)"
    and sc: "stat_snapshot ex_ref_snapshot ''/w/c'' = Some (ex_stat 12)"
    and rest: "inode_to_path ex_new_snapshot (st_ino (ex_stat 11)) = Some ''/w/b''"
      "inode_to_path ex_new_snapshot (st_ino (ex_stat 12)) = None"
      "stat_snapshot ex_new_snapshot ''/w/c'' = Some (ex_stat 13)"
    by (simp_all add: ex_ref_snapshot_def ex_new_snapshot_def ex_stat_def)
  have f: "\<not> lock (em_descriptors ex_emitter_ac)"
    and ha: "has_path (em_descriptors ex_emitter_ac) (absolute_path ''/w/a'')"
    and hc: "has_path (em_descriptors ex_emitter_ac) (absolute_path ''/w/c'')"
    by (simp_all add: ex_emitter_ac_facts absolute_path_def)
  have "queue_file_renamed module_env ''/w/a'' ex_ref_snapshot ex_new_snapshot ex_emitter_ac =
          Blocks"
    using f ha sa by (rule queue_file_renamed_tracked)
  moreover
  have "queue_file_renamed module_env ''/w/c'' ex_ref_snapshot ex_new_snapshot ex_emitter_ac =
          Blocks"
    using f hc sc by (rule queue_file_renamed_tracked)
  ultimately show ?thesis
    using sa sc rest by simp
qed

text \<open>
  Claim C2. The claim says what an iteration of the loop does once the batch of signals
  is processed: a walk, a diff and events when a deferred set is non-empty. In the code no
  iteration gets as far as reading a batch: the first statement of the loop body calls the
  list that the property \<^verbatim>\<open>kevents\<close> returns, which raises \<^verbatim>\<open>TypeError\<close>, and the
  handler around the loop names \<^verbatim>\<open>OSerror\<close>, which is not bound, so that the call of
  \<^verbatim>\<open>queue_events\<close> ends with \<^verbatim>\<open>NameError\<close>; were the name bound to
  \<^verbatim>\<open>OSError\<close>, it would end with the \<^verbatim>\<open>TypeError\<close>. Here the emitter watches the
  directory \<^verbatim>\<open>/w\<close> on handle 5 and the kernel has a write on that handle to report:
  whatever the bound on the turns, the call raises in its first turn, with the emitter as
  it was: no snapshot taken, no event queued.
\<close>

theorem queue_events_raises_before_batch:
  "descriptor_for_fd (em_descriptors ex_emitter_w) 5 = Some (ex_descriptor ''/w'' True 5) \<and>
   kq_control module_env ks timeout = Inr [ex_kevent 5 KQ_NOTE_WRITE] \<and>
   queue_events module_env timeout (Suc n) ex_emitter_w = Some (Raises NameError ex_emitter_w) \<and>
   queue_events ex_env timeout (Suc n) ex_emitter_w = Some (Raises TypeError ex_emitter_w)"
proof -
  have f: "\<not> lock (em_descriptors ex_emitter_w)"
    by (rule ex_emitter_w_facts)
  have "except_OSerror module_env TypeError ex_emitter_w = Raises NameError ex_emitter_w"
    by (simp add: except_OSerror_def module_env_def)
  moreover
  have "except_OSerror ex_env TypeError ex_emitter_w = Raises TypeError ex_emitter_w"
    by (simp add: except_OSerror_def ex_env_def is_OSError_def)
  ultimately show ?thesis
    by (simp add: queue_events_first_turn [OF f] ex_emitter_w_facts module_env_def)
qed

text \<open>
  Claim C3, as it stands, fails: for a signal whose handle the set does not know,
  \<^verbatim>\<open>get_for_fd\<close> raises \<^verbatim>\<open>KeyError\<close> and nothing in the loop catches it. Below,
  handle 9 is unknown and handle 3 is the descriptor of \<^verbatim>\<open>/w/a\<close>: the batch ends with
  the error, and the signal for handle 3 that follows is not processed.
\<close>

theorem unknown_handle_counterexample:
  "descriptor_for_fd (em_descriptors ex_emitter_a) 9 = None \<and>
   queue_events_except_renames_and_dir_modifications ex_env
     [ex_kevent 9 KQ_NOTE_ATTRIB, ex_kevent 3 KQ_NOTE_ATTRIB] ex_emitter_a =
     Raises KeyError ex_emitter_a"
  by (simp add: queue_events_except_renames_and_dir_modifications_def and_then_def
      queue_kevent_unknown ex_emitter_facts)

text \<open>
  Claim C3, amended. A signal whose handle has no registered descriptor makes
  \<^verbatim>\<open>get_for_fd\<close> raise \<^verbatim>\<open>KeyError\<close>: no event is queued for it, the error leaves the
  processing of the batch, in the state that the signals before it have produced, and the
  signals after it are not processed.
\<close>

theorem unknown_handle_raises:
  assumes "queue_kevents E pre ({}, {}) em = Returns acc em1"
    and "\<not> lock (em_descriptors em1)"
    and "descriptor_for_fd (em_descriptors em1) (ident kev) = None"
  shows "queue_events_except_renames_and_dir_modifications E (pre @ kev # rest) em =
           Raises KeyError em1"
  using assms
  by (simp add: queue_events_except_renames_and_dir_modifications_def queue_kevents_append
      and_then_def queue_kevent_unknown)

theorem unknown_handle_raises_witness:
  "queue_events_except_renames_and_dir_modifications ex_env
     ([ex_kevent 3 KQ_NOTE_ATTRIB] @ ex_kevent 9 KQ_NOTE_ATTRIB # [ex_kevent 3 KQ_NOTE_WRITE])
     ex_emitter_a =
   Raises KeyError (EventEmitter_queue_event (FileModifiedEvent ''/w/a'') ex_emitter_a)"
proof -
  have p: "queue_kevents ex_env [ex_kevent 3 KQ_NOTE_ATTRIB] ({}, {}) ex_emitter_a =
             Returns ({}, {}) (EventEmitter_queue_event (FileModifiedEvent ''/w/a'') ex_emitter_a)"
    by (simp add: and_then_def queue_kevent_known [where d = "ex_descriptor ''/w/a'' False 3"]
        ex_emitter_facts ex_descriptor_def KQ_NOTE_ATTRIB_def KQ_NOTE_DELETE_def)
  have f: "\<not> lock (em_descriptors (EventEmitter_queue_event (FileModifiedEvent ''/w/a'') ex_emitter_a))"
    by (simp add: ex_emitter_facts)
  have n: "descriptor_for_fd
             (em_descriptors (EventEmitter_queue_event (FileModifiedEvent ''/w/a'') ex_emitter_a))
             (ident (ex_kevent 9 KQ_NOTE_ATTRIB)) = None"
    by (simp add: ex_emitter_facts)
  show ?thesis
    using unknown_handle_raises [OF p f n] .
qed

text \<open>
  Claim C4, as it stands, fails: the event queued for a signal with the attribute flag
  is a modified event, \<^verbatim>\<open>DirModifiedEvent\<close> or \<^verbatim>\<open>FileModifiedEvent\<close>, not an event
  of a type of its own. Below, the signal carries the attribute flag alone, on the
  descriptor of the file \<^verbatim>\<open>/w/a\<close>.
\<close>

theorem attrib_signal_counterexample:
  "events_of (queue_kevent ex_env (ex_kevent 3 KQ_NOTE_ATTRIB) ({}, {}) ex_emitter_a) =
     [FileModifiedEvent ''/w/a''] \<and>
   event_type (FileModifiedEvent ''/w/a'') \<noteq> EVENT_TYPE_ATTRIB_MODIFIED"
  by (simp add: queue_kevent_known [where d = "ex_descriptor ''/w/a'' False 3"]
      ex_emitter_facts ex_descriptor_def KQ_NOTE_ATTRIB_def KQ_NOTE_DELETE_def events_of_def)

text \<open>
  Claim C4, amended. For every signal of a registered descriptor that has the attribute
  flag and not the delete flag, a modified event, tagged directory or file as the
  descriptor is and carrying the path of the descriptor, is appended to the queue at
  once; the two deferred sets are returned as they were.
\<close>

theorem attrib_signal_queues_modified:
  assumes "\<not> lock (em_descriptors em)"
    and "descriptor_for_fd (em_descriptors em) (ident kev) = Some d"
    and "\<not> truthy (is_deleted kev)"
    and "truthy (is_attrib_modified kev)"
  shows "queue_kevent E kev acc em =
           Returns acc (em\<lparr>event_queue := event_queue em @
             [if d_is_directory d then DirModifiedEvent (d_path d)
              else FileModifiedEvent (d_path d)]\<rparr>)"
  using assms(3,4)
  by (simp add: queue_kevent_known [OF assms(1,2)] truthy_def is_deleted_def
      is_attrib_modified_def EventEmitter_queue_event_def)

theorem attrib_signal_queues_modified_witness:
  "queue_kevent ex_env (ex_kevent 3 (KQ_NOTE_ATTRIB OR KQ_NOTE_WRITE)) ({}, {''/w''}) ex_emitter_a =
     Returns ({}, {''/w''})
       (ex_emitter_a\<lparr>event_queue := event_queue ex_emitter_a @ [FileModifiedEvent ''/w/a'']\<rparr>)"
proof -
  have f: "\<not> lock (em_descriptors ex_emitter_a)"
    by (rule ex_emitter_facts)
  have d: "descriptor_for_fd (em_descriptors ex_emitter_a)
             (ident (ex_kevent 3 (KQ_NOTE_ATTRIB OR KQ_NOTE_WRITE))) =
           Some (ex_descriptor ''/w/a'' False 3)"
    by (simp add: ex_emitter_facts)
  have n: "\<not> truthy (is_deleted (ex_kevent 3 (KQ_NOTE_ATTRIB OR KQ_NOTE_WRITE)))"
    by (simp add: truthy_def is_deleted_def KQ_NOTE_ATTRIB_def KQ_NOTE_WRITE_def
        KQ_NOTE_DELETE_def)
  have a: "truthy (is_attrib_modified (ex_kevent 3 (KQ_NOTE_ATTRIB OR KQ_NOTE_WRITE)))"
    by (simp add: truthy_def is_attrib_modified_def KQ_NOTE_ATTRIB_def KQ_NOTE_WRITE_def)
  show ?thesis
    using attrib_signal_queues_modified [OF f d n a, of ex_env "({}, {''/w''})"]
    by (simp add: ex_descriptor_def)
qed

text \<open>
  Claim C5. The claim says that when a moved or a deleted event is queued the descriptor
  of the source path has been removed, and for a moved event a descriptor registered for
  the destination. In the code \<^verbatim>\<open>queue_event\<close> of such an event for a watched path
  never queues it: \<^verbatim>\<open>_unregister\<close> calls \<^verbatim>\<open>remove\<close>, which never returns for a
  registered path. Here the emitter watches \<^verbatim>\<open>/w/a\<close>: the deleted event and the moved
  event for \<^verbatim>\<open>/w/a\<close> both block. For a source that is not watched, the registration of
  the new destination raises \<^verbatim>\<open>NameError\<close>, on the name \<^verbatim>\<open>kev\<close> that the
  constructor of the descriptor reads, and the moved event is not queued either.
\<close>

theorem tracked_path_event_blocks:
  "queue_event module_env (FileDeletedEvent ''/w/a'') ex_emitter_a = Blocks \<and>
   queue_event module_env (FileMovedEvent ''/w/a'' ''/w/b'') ex_emitter_a = Blocks \<and>
   queue_event module_env (FileMovedEvent ''/w/x'' ''/w/b'') ex_emitter_a =
     Raises NameError ex_emitter_a"
proof -
  have f: "\<not> lock (em_descriptors ex_emitter_a)"
    by (rule ex_emitter_facts)
  have "register module_env ''/w/b'' False ex_emitter_a = Raises NameError ex_emitter_a"
    using f by (rule register_unbound_kev)
       (simp_all add: ex_emitter_facts absolute_path_def module_env_def)
  then show ?thesis
    using f
    by (simp add: queue_event_deleted queue_event_moved [where dest = "''/w/b''"]
        ex_emitter_facts absolute_path_def)
qed

text \<open>
  Claim C6. The claim says that a path that has vanished before it could be opened gets
  a created and a deleted event, and that the emitter goes on. In the code the constructor
  of the descriptor reads the name \<^verbatim>\<open>kev\<close>, which nothing binds, before it opens the
  path: \<^verbatim>\<open>_register\<close> of a path that is not registered raises \<^verbatim>\<open>NameError\<close>,
  which its handler for \<^verbatim>\<open>OSError\<close> does not catch. Here \<^verbatim>\<open>/w/tmp\<close> is gone, so
  that \<^verbatim>\<open>os.open\<close> would fail with \<^verbatim>\<open>ENOENT\<close>: the call raises \<^verbatim>\<open>NameError\<close>
  and no event is queued.
\<close>

theorem vanished_path_raises_NameError:
  "os_open module_env (absolute_path ''/w/tmp'') = Inl ENOENT \<and>
   register module_env ''/w/tmp'' False ex_emitter_a = Raises NameError ex_emitter_a \<and>
   events_of (register module_env ''/w/tmp'' False ex_emitter_a) = []"
proof -
  have f: "\<not> lock (em_descriptors ex_emitter_a)"
    by (rule ex_emitter_facts)
  have "register module_env ''/w/tmp'' False ex_emitter_a = Raises NameError ex_emitter_a"
    using f by (rule register_unbound_kev)
       (simp_all add: ex_emitter_facts absolute_path_def module_env_def)
  then show ?thesis
    by (simp add: events_of_def ex_emitter_facts module_env_def absolute_path_def)
qed

text \<open>
  Claim C10. For a signal of a registered descriptor the four classes exclude each other,
  in this order: with the delete flag, whatever the other flags, the signal is handled
  as a deletion; without it and with the attribute flag, as an attribute change (a
  modified event is queued), whatever the write, extend and rename flags; without both
  and with the write or the extend flag, as a modification (deferred for a directory,
  a modified event for a file), whatever the rename flag; it is handled as a rename only
  when none of the delete, attribute, write and extend flags is set.
\<close>

theorem flag_precedence:
  assumes "\<not> lock (em_descriptors em)"
    and "descriptor_for_fd (em_descriptors em) (ident kev) = Some d"
  shows "(fflags kev AND KQ_NOTE_DELETE \<noteq> 0 \<longrightarrow>
            queue_kevent E kev acc em =
              and_then (queue_event E (if d_is_directory d then DirDeletedEvent (d_path d)
                                       else FileDeletedEvent (d_path d)) em)
                (\<lambda>u. Returns acc)) \<and>
         (fflags kev AND KQ_NOTE_DELETE = 0 \<and> fflags kev AND KQ_NOTE_ATTRIB \<noteq> 0 \<longrightarrow>
            queue_kevent E kev acc em =
              Returns acc (EventEmitter_queue_event
                (if d_is_directory d then DirModifiedEvent (d_path d)
                 else FileModifiedEvent (d_path d)) em)) \<and>
         (fflags kev AND KQ_NOTE_DELETE = 0 \<and> fflags kev AND KQ_NOTE_ATTRIB = 0 \<and>
          (fflags kev AND KQ_NOTE_WRITE \<noteq> 0 \<or> fflags kev AND KQ_NOTE_EXTEND \<noteq> 0) \<longrightarrow>
            queue_kevent E kev acc em =
              (if d_is_directory d then Returns (fst acc, insert (d_path d) (snd acc)) em
               else Returns acc (EventEmitter_queue_event (FileModifiedEvent (d_path d)) em))) \<and>
         (fflags kev AND KQ_NOTE_DELETE = 0 \<and> fflags kev AND KQ_NOTE_ATTRIB = 0 \<and>
          fflags kev AND KQ_NOTE_WRITE = 0 \<and> fflags kev AND KQ_NOTE_EXTEND = 0 \<and>
          fflags kev AND KQ_NOTE_RENAME \<noteq> 0 \<longrightarrow>
            queue_kevent E kev acc em =
              (if d_is_directory d then Returns (insert (d_path d) (fst acc), snd acc) em
               else
                 (case name_ref_snapshot E of
                    None \<Rightarrow> Raises NameError em
                  | Some ref_snapshot \<Rightarrow>
                      (case name_new_snapshot E of
                         None \<Rightarrow> Raises NameError em
                       | Some new_snapshot \<Rightarrow>
                           and_then (queue_file_renamed E (d_path d) ref_snapshot new_snapshot em)
                             (\<lambda>u. Returns acc)))))"
proof -
  have known: "on_descriptors (get_for_fd (ident kev)) em = Returns d em"
    using assms by (simp add: on_descriptors_get_for_fd)
  have del: "truthy (is_deleted kev) \<longleftrightarrow> fflags kev AND KQ_NOTE_DELETE \<noteq> 0"
    and att: "truthy (is_attrib_modified kev) \<longleftrightarrow> fflags kev AND KQ_NOTE_ATTRIB \<noteq> 0"
    and ren: "truthy (is_renamed kev) \<longleftrightarrow> fflags kev AND KQ_NOTE_RENAME \<noteq> 0"
    and mod: "truthy (is_modified kev) \<longleftrightarrow>
               fflags kev AND KQ_NOTE_WRITE \<noteq> 0 \<or> fflags kev AND KQ_NOTE_EXTEND \<noteq> 0"
    by (auto simp: truthy_def is_deleted_def is_attrib_modified_def is_renamed_def
        is_modified_def Let_def)
  have modified: "queue_event E ev em = Returns () (EventEmitter_queue_event ev em)"
    if "event_type ev = EVENT_TYPE_MODIFIED" for ev
    using that by (simp add: queue_event_plain)
  obtain dirs_renamed dirs_modified where acc: "acc = (dirs_renamed, dirs_modified)"
    by (cases acc)
  show ?thesis
    unfolding queue_kevent_def acc
    by (simp add: known and_then_def del att ren mod modified)
qed

theorem flag_precedence_witness:
  "queue_kevent ex_env
     (ex_kevent 3 (KQ_NOTE_DELETE OR KQ_NOTE_ATTRIB OR KQ_NOTE_WRITE OR KQ_NOTE_RENAME))
     ({}, {}) ex_emitter_a =
     and_then (queue_event ex_env (FileDeletedEvent ''/w/a'') ex_emitter_a)
       (\<lambda>u. Returns ({}, {})) \<and>
   queue_kevent ex_env (ex_kevent 3 (KQ_NOTE_ATTRIB OR KQ_NOTE_EXTEND OR KQ_NOTE_RENAME))
     ({}, {}) ex_emitter_a =
     Returns ({}, {}) (EventEmitter_queue_event (FileModifiedEvent ''/w/a'') ex_emitter_a) \<and>
   queue_kevent ex_env (ex_kevent 3 (KQ_NOTE_WRITE OR KQ_NOTE_RENAME)) ({}, {}) ex_emitter_a =
     Returns ({}, {}) (EventEmitter_queue_event (FileModifiedEvent ''/w/a'') ex_emitter_a) \<and>
   queue_kevent ex_env (ex_kevent 3 (KQ_NOTE_RENAME OR KQ_NOTE_LINK)) ({}, {}) ex_emitter_a =
     and_then (queue_file_renamed ex_env ''/w/a'' ex_ref_snapshot ex_new_snapshot ex_emitter_a)
       (\<lambda>u. Returns ({}, {}))"
proof -
  have f: "\<not> lock (em_descriptors ex_emitter_a)"
    by (rule ex_emitter_facts)
  have d: "descriptor_for_fd (em_descriptors ex_emitter_a) (ident (ex_kevent 3 w)) =
             Some (ex_descriptor ''/w/a'' False 3)" for w
    by (simp add: ex_emitter_facts)
  note p = flag_precedence [OF f d, of _ ex_env "({}, {})"]
  have "queue_kevent ex_env
          (ex_kevent 3 (KQ_NOTE_DELETE OR KQ_NOTE_ATTRIB OR KQ_NOTE_WRITE OR KQ_NOTE_RENAME))
          ({}, {}) ex_emitter_a =
        and_then (queue_event ex_env (FileDeletedEvent ''/w/a'') ex_emitter_a)
          (\<lambda>u. Returns ({}, {}))"
    using p [of "KQ_NOTE_DELETE OR KQ_NOTE_ATTRIB OR KQ_NOTE_WRITE OR KQ_NOTE_RENAME"]
    by (simp add: ex_descriptor_def KQ_NOTE_DELETE_def KQ_NOTE_ATTRIB_def KQ_NOTE_WRITE_def
        KQ_NOTE_RENAME_def)
  moreover have "queue_kevent ex_env
          (ex_kevent 3 (KQ_NOTE_ATTRIB OR KQ_NOTE_EXTEND OR KQ_NOTE_RENAME)) ({}, {}) ex_emitter_a =
        Returns ({}, {}) (EventEmitter_queue_event (FileModifiedEvent ''/w/a'') ex_emitter_a)"
    using p [of "KQ_NOTE_ATTRIB OR KQ_NOTE_EXTEND OR KQ_NOTE_RENAME"]
    by (simp add: ex_descriptor_def KQ_NOTE_DELETE_def KQ_NOTE_ATTRIB_def KQ_NOTE_EXTEND_def
        KQ_NOTE_RENAME_def)
  moreover have "queue_kevent ex_env
          (ex_kevent 3 (KQ_NOTE_WRITE OR KQ_NOTE_RENAME)) ({}, {}) ex_emitter_a =
        Returns ({}, {}) (EventEmitter_queue_event (FileModifiedEvent ''/w/a'') ex_emitter_a)"
    using p [of "KQ_NOTE_WRITE OR KQ_NOTE_RENAME"]
    by (simp add: ex_descriptor_def KQ_NOTE_DELETE_def KQ_NOTE_ATTRIB_def KQ_NOTE_WRITE_def
        KQ_NOTE_EXTEND_def KQ_NOTE_RENAME_def)
  moreover have "queue_kevent ex_env
          (ex_kevent 3 (KQ_NOTE_RENAME OR KQ_NOTE_LINK)) ({}, {}) ex_emitter_a =
        and_then (queue_file_renamed ex_env ''/w/a'' ex_ref_snapshot ex_new_snapshot ex_emitter_a)
          (\<lambda>u. Returns ({}, {}))"
    using p [of "KQ_NOTE_RENAME OR KQ_NOTE_LINK"]
    by (simp add: ex_descriptor_def ex_env_facts KQ_NOTE_DELETE_def KQ_NOTE_ATTRIB_def
        KQ_NOTE_WRITE_def KQ_NOTE_EXTEND_def KQ_NOTE_RENAME_def KQ_NOTE_LINK_def)
  ultimately show ?thesis
    by blast
qed

end
